theory Spec2Isabelle
  imports Main "HOL-Library.Word"
begin

section \<open>JavaScript strings\<close>

text \<open>
  A JavaScript string is a sequence of UTF-16 code units. String literals of the
  source that are plain ASCII are written with \<open>utf16\<close>; the emoji of the alert
  labels are given by their code units.
\<close>

type_synonym code_unit = "16 word"
type_synonym jsstring = "code_unit list"

definition utf16 :: "string \<Rightarrow> jsstring" where
  "utf16 s = map of_char s"

text \<open>
  The operand coercions of \<open>!x\<close> and \<open>x || y\<close> on values of type
  \<open>string | undefined\<close>: \<open>undefined\<close>, \<open>null\<close> and the empty string are falsy.
\<close>

fun truthy :: "jsstring option \<Rightarrow> bool" where
  "truthy None = False"
| "truthy (Some s) = (s \<noteq> [])"

text \<open>\<open>x || 'literal'\<close> where the right operand is a string literal.\<close>

definition or_default :: "jsstring option \<Rightarrow> jsstring \<Rightarrow> jsstring" where
  "or_default a d = (case a of None \<Rightarrow> d | Some s \<Rightarrow> if s = [] then d else s)"

definition js_or :: "jsstring option \<Rightarrow> jsstring option \<Rightarrow> jsstring option" where
  "js_or a b = (if truthy a then a else b)"

text \<open>Decimal rendering of an integer-valued number inside a template literal.\<close>

fun dec :: "nat \<Rightarrow> jsstring" where
  "dec n = (if n < 10 then [of_nat (48 + n)] else dec (n div 10) @ [of_nat (48 + n mod 10)])"

declare dec.simps [simp del]

definition num_str :: "int \<Rightarrow> jsstring" where
  "num_str i = (if i < 0 then 0x2D # dec (nat (- i)) else dec (nat i))"

text \<open>\<open>Array.prototype.join\<close> on an array of strings.\<close>

fun js_join :: "jsstring \<Rightarrow> jsstring list \<Rightarrow> jsstring" where
  "js_join sep [] = []"
| "js_join sep [x] = x"
| "js_join sep (x # y # ys) = x @ sep @ js_join sep (y # ys)"

section \<open>The signup mutation (convex/signups.ts, convex/schema.ts)\<close>

subsection \<open>The regular expression\<close>

text \<open>
  The class \<open>\s\<close> of an ECMAScript regular expression without the \<open>u\<close> flag:
  the WhiteSpace and LineTerminator code points.
\<close>

definition js_space :: "code_unit \<Rightarrow> bool" where
  "js_space c = (c = 0x09 \<or> c = 0x0A \<or> c = 0x0B \<or> c = 0x0C \<or> c = 0x0D \<or> c = 0x20
     \<or> c = 0xA0 \<or> c = 0x1680 \<or> (0x2000 \<le> c \<and> c \<le> 0x200A) \<or> c = 0x2028 \<or> c = 0x2029
     \<or> c = 0x202F \<or> c = 0x205F \<or> c = 0x3000 \<or> c = 0xFEFF)"

text \<open>
  The patterns used by the source are sequences of terms, each a single code unit or a
  negated class, taken once or with \<open>+\<close>, anchored by \<open>^\<close> and \<open>$\<close> (no flags,
  so \<open>$\<close> is the end of the input and \<open>test\<close> keeps no state).
\<close>

datatype rx_atom = Chr code_unit | NegClass "code_unit \<Rightarrow> bool"

datatype rx_term = One rx_atom | Plus rx_atom

fun atom_ok :: "rx_atom \<Rightarrow> code_unit \<Rightarrow> bool" where
  "atom_ok (Chr k) c = (c = k)"
| "atom_ok (NegClass p) c = (\<not> p c)"

text \<open>\<open>rx_test ts s\<close>: does the anchored pattern \<open>^ts$\<close> match the whole of \<open>s\<close>.\<close>

fun rx_test :: "rx_term list \<Rightarrow> jsstring \<Rightarrow> bool" where
  "rx_test [] s = (s = [])"
| "rx_test (t # ts) [] = False"
| "rx_test (One a # ts) (c # cs) = (atom_ok a c \<and> rx_test ts cs)"
| "rx_test (Plus a # ts) (c # cs) =
     (atom_ok a c \<and> (rx_test (Plus a # ts) cs \<or> rx_test ts cs))"

definition space_or_at :: "code_unit \<Rightarrow> bool" where
  "space_or_at c = (js_space c \<or> c = 0x40)"

text \<open>\<^verbatim>\<open>/^[^\s@]+@[^\s@]+\.[^\s@]+$/\<close>\<close>

definition emailRegex :: "rx_term list" where
  "emailRegex = [Plus (NegClass space_or_at), One (Chr 0x40), Plus (NegClass space_or_at),
                 One (Chr 0x2E), Plus (NegClass space_or_at)]"

text \<open>
  The shape in the words of the specification: one or more non-whitespace, non-"@"
  characters, then "@", then one or more such characters, then ".", then one or more
  such characters.
\<close>

definition spec_email_shape :: "jsstring \<Rightarrow> bool" where
  "spec_email_shape s =
     (\<exists>a b c. s = a @ [0x40] @ b @ [0x2E] @ c \<and> a \<noteq> [] \<and> b \<noteq> [] \<and> c \<noteq> []
        \<and> (\<forall>x \<in> set (a @ b @ c). \<not> js_space x \<and> x \<noteq> 0x40))"

subsection \<open>The store\<close>

text \<open>
  The table \<open>signups\<close> of the schema, in insertion order, and the log of the
  operations issued on \<open>ctx.db\<close>. The index \<open>by_email\<close> orders equal emails by
  creation time, so \<open>first()\<close> on an equality range is the oldest matching document.
\<close>

record signup_doc =
  email :: jsstring
  source :: "jsstring option"

datatype db_op = IndexQuery jsstring | Insert signup_doc

record db_ctx =
  signups :: "signup_doc list"
  oplog :: "db_op list"

definition query_by_email_first :: "db_ctx \<Rightarrow> jsstring \<Rightarrow> signup_doc option \<times> db_ctx" where
  "query_by_email_first ctx addr =
     (find (\<lambda>d. email d = addr) (signups ctx), ctx\<lparr>oplog := oplog ctx @ [IndexQuery addr]\<rparr>)"

definition db_insert :: "db_ctx \<Rightarrow> signup_doc \<Rightarrow> db_ctx" where
  "db_insert ctx d = ctx\<lparr>signups := signups ctx @ [d], oplog := oplog ctx @ [Insert d]\<rparr>"

subsection \<open>createSignup\<close>

text \<open>
  The mutation throws \<open>new Error(message)\<close> or returns \<open>{success, duplicate}\<close>
  (the field \<open>success\<close> is \<open>reply_success\<close> here, the name \<open>success\<close> being that
  of the field of \<open>HealthCheckResult\<close>).
\<close>

datatype js_error = Error jsstring

record signup_reply =
  reply_success :: bool
  duplicate :: bool

definition createSignup :: "db_ctx \<Rightarrow> jsstring \<Rightarrow> (js_error + signup_reply) \<times> db_ctx" where
  "createSignup ctx addr =
     (if \<not> rx_test emailRegex addr then (Inl (Error (utf16 ''Invalid email format'')), ctx)
      else
        (case query_by_email_first ctx addr of
           (Some existing, ctx1) \<Rightarrow> (Inr \<lparr>reply_success = True, duplicate = True\<rparr>, ctx1)
         | (None, ctx1) \<Rightarrow>
             (Inr \<lparr>reply_success = True, duplicate = False\<rparr>,
              db_insert ctx1 \<lparr>email = addr, source = Some (utf16 ''landing-page'')\<rparr>)))"

section \<open>Health checks (lib/health-check.ts)\<close>

subsection \<open>Results, alerts and the outside world\<close>

record HealthCheckResult =
  url :: jsstring
  success :: bool
  status :: "nat option"
  error :: "jsstring option"
  attempts :: int
  responseTime :: "nat option"

text \<open>
  \<open>SlackHealthAlert\<close>: a text and a list of blocks; the text object of a block, its
  fields and its elements are optional.
\<close>

record text_obj =
  obj_type :: jsstring
  obj_text :: jsstring
  obj_emoji :: "bool option"

record block =
  blk_type :: jsstring
  blk_text :: "text_obj option"
  blk_fields :: "text_obj list option"
  blk_elements :: "text_obj list option"

record SlackHealthAlert =
  alert_text :: jsstring
  blocks :: "block list"

text \<open>
  What a caught exception is: an \<open>Error\<close> object with its message, or any other value.
  What \<open>await fetch(...)\<close> does: it resolves with a response (status, status text)
  or rejects (timeout, DNS, refused connection); either way after some milliseconds.
\<close>

datatype thrown = ErrorObj jsstring | NonError

datatype fetch_outcome =
    Responds nat jsstring nat  \<comment> \<open>status, status text, milliseconds\<close>
  | Rejects thrown nat  \<comment> \<open>thrown value, milliseconds\<close>

text \<open>The effects on the outside world: the requests sent and the timers awaited.\<close>

datatype effect = Fetch jsstring nat | Sleep int | Post jsstring SlackHealthAlert

fun is_Fetch :: "effect \<Rightarrow> bool" where
  "is_Fetch (Fetch u ms) = True"
| "is_Fetch e = False"

fun is_Sleep :: "effect \<Rightarrow> bool" where
  "is_Sleep (Sleep d) = True"
| "is_Sleep e = False"

text \<open>\<open>response.ok\<close>: the status is in the range 200 to 299.\<close>

definition response_ok :: "nat \<Rightarrow> bool" where
  "response_ok st = (200 \<le> st \<and> st \<le> 299)"

subsection \<open>executeHealthCheck\<close>

text \<open>\<^verbatim>\<open>`HTTP ${response.status}: ${response.statusText}`\<close>\<close>

definition http_error_text :: "nat \<Rightarrow> jsstring \<Rightarrow> jsstring" where
  "http_error_text st stext = utf16 ''HTTP '' @ dec st @ utf16 '': '' @ stext"

text \<open>\<^verbatim>\<open>error instanceof Error ? error.message : 'Unknown error'\<close>\<close>

fun thrown_message :: "thrown \<Rightarrow> jsstring" where
  "thrown_message (ErrorObj m) = m"
| "thrown_message NonError = utf16 ''Unknown error''"

text \<open>
  The \<open>for\<close> loop of \<open>executeHealthCheck\<close>, from the value \<open>attempt\<close> of its counter
  on, with the current \<open>lastError\<close> and \<open>lastStatus\<close> and the effects so far.
  \<open>net k\<close> is the outcome of the request of attempt \<open>k\<close>. The counter runs over the
  naturals; \<open>retries\<close> and \<open>delayMs\<close> are the caller's numbers, taken as integers.
\<close>

function attempt_loop ::
  "(nat \<Rightarrow> fetch_outcome) \<Rightarrow> jsstring \<Rightarrow> int \<Rightarrow> int \<Rightarrow> nat \<Rightarrow> jsstring \<Rightarrow> nat option
     \<Rightarrow> effect list \<Rightarrow> HealthCheckResult \<times> effect list" where
  "attempt_loop net u retries delayMs attempt lastError lastStatus tr =
     (if int attempt \<le> retries then
        (case net attempt of
           Responds st stext ms \<Rightarrow>
             if response_ok st then
               (\<lparr>url = u, success = True, status = Some st, error = None,
                 attempts = int attempt + 1, responseTime = Some ms\<rparr>,
                tr @ [Fetch u ms])
             else
               attempt_loop net u retries delayMs (attempt + 1)
                 (http_error_text st stext) (Some st) (tr @ [Fetch u ms])
         | Rejects e ms \<Rightarrow>
             attempt_loop net u retries delayMs (attempt + 1)
               (thrown_message e) lastStatus
               (tr @ [Fetch u ms] @ (if int attempt < retries then [Sleep delayMs] else [])))
      else
        (\<lparr>url = u, success = False, status = lastStatus, error = Some lastError,
          attempts = retries + 1, responseTime = None\<rparr>, tr))"
  by pat_completeness auto
termination
  by (relation "measure (\<lambda>(net, u, retries, delayMs, attempt, rest). nat (retries + 1 - int attempt))")
     auto

declare attempt_loop.simps [simp del]

definition executeHealthCheck ::
  "(nat \<Rightarrow> fetch_outcome) \<Rightarrow> jsstring \<Rightarrow> int \<Rightarrow> int \<Rightarrow> HealthCheckResult \<times> effect list" where
  "executeHealthCheck net u retries delayMs = attempt_loop net u retries delayMs 0 [] None []"

text \<open>An attempt fails when its response is not ok or its request rejects.\<close>

fun fails :: "fetch_outcome \<Rightarrow> bool" where
  "fails (Responds st stext ms) = (\<not> response_ok st)"
| "fails (Rejects e ms) = True"

text \<open>The error that a failed attempt records in \<open>lastError\<close>.\<close>

fun recorded_error :: "fetch_outcome \<Rightarrow> jsstring" where
  "recorded_error (Responds st stext ms) = http_error_text st stext"
| "recorded_error (Rejects e ms) = thrown_message e"

text \<open>
  The effects of attempt \<open>k\<close> when it fails: the request, and the timer that the
  \<open>catch\<close> block awaits when it is not the last attempt.
\<close>

fun attempt_effects :: "jsstring \<Rightarrow> int \<Rightarrow> int \<Rightarrow> nat \<Rightarrow> fetch_outcome \<Rightarrow> effect list" where
  "attempt_effects u retries delayMs k (Responds st stext ms) = [Fetch u ms]"
| "attempt_effects u retries delayMs k (Rejects e ms) =
     [Fetch u ms] @ (if int k < retries then [Sleep delayMs] else [])"

fun is_Rejects :: "fetch_outcome \<Rightarrow> bool" where
  "is_Rejects (Rejects e ms) = True"
| "is_Rejects (Responds st stext ms) = False"

subsection \<open>formatHealthAlert\<close>

text \<open>
  The function reads the clock: \<open>timestamp\<close> is the value of
  \<^verbatim>\<open>new Date().toLocaleString('en-US', {...})\<close> at the moment of the call.
\<close>

definition mrkdwn :: "jsstring \<Rightarrow> text_obj" where
  "mrkdwn t = \<lparr>obj_type = utf16 ''mrkdwn'', obj_text = t, obj_emoji = None\<rparr>"

text \<open>\<^verbatim>\<open>${result.status || 'N/A'}\<close>: a missing status and the status 0 are falsy.\<close>

definition status_text :: "nat option \<Rightarrow> jsstring" where
  "status_text st = (case st of None \<Rightarrow> utf16 ''N/A''
                     | Some n \<Rightarrow> if n = 0 then utf16 ''N/A'' else dec n)"

definition result_fields :: "HealthCheckResult \<Rightarrow> text_obj list" where
  "result_fields r =
     [mrkdwn ([0x2A, 0xD83D, 0xDD17] @ utf16 '' URL:*'' @ [0x0A] @ url r),
      mrkdwn ([0x2A, 0xD83D, 0xDCCA] @ utf16 '' Status:*'' @ [0x0A] @ status_text (status r)),
      mrkdwn ([0x2A, 0xD83D, 0xDD04] @ utf16 '' Attempts:*'' @ [0x0A] @ num_str (attempts r)),
      mrkdwn ([0x2A, 0x274C] @ utf16 '' Error:*'' @ [0x0A]
              @ or_default (error r) (utf16 ''Unknown error''))]"

definition formatHealthAlert :: "jsstring \<Rightarrow> HealthCheckResult list \<Rightarrow> jsstring \<Rightarrow> SlackHealthAlert" where
  "formatHealthAlert timestamp results baseUrl =
     (let failedChecks = filter (\<lambda>r. \<not> success r) results;
          fields = concat (map result_fields failedChecks)
      in \<lparr>alert_text = [0xD83D, 0xDEA8] @ utf16 '' Gist GEO Health Check Failed'',
          blocks =
            [\<lparr>blk_type = utf16 ''header'',
              blk_text = Some \<lparr>obj_type = utf16 ''plain_text'',
                               obj_text = [0xD83D, 0xDEA8] @ utf16 '' Health Check Alert'',
                               obj_emoji = Some True\<rparr>,
              blk_fields = None, blk_elements = None\<rparr>,
             \<lparr>blk_type = utf16 ''section'',
              blk_text = Some (mrkdwn
                (utf16 ''*'' @ dec (length failedChecks) @ utf16 ''* health check''
                 @ (if length failedChecks > 1 then utf16 ''s'' else [])
                 @ utf16 '' failed for *'' @ baseUrl @ utf16 ''*'')),
              blk_fields = None, blk_elements = None\<rparr>,
             \<lparr>blk_type = utf16 ''divider'', blk_text = None, blk_fields = None,
              blk_elements = None\<rparr>,
             \<lparr>blk_type = utf16 ''section'', blk_text = None, blk_fields = Some fields,
              blk_elements = None\<rparr>,
             \<lparr>blk_type = utf16 ''divider'', blk_text = None, blk_fields = None,
              blk_elements = None\<rparr>,
             \<lparr>blk_type = utf16 ''context'', blk_text = None, blk_fields = None,
              blk_elements = Some [mrkdwn ([0x23F0, 0x20] @ timestamp @ utf16 '' PST'')]\<rparr>]\<rparr>)"

subsection \<open>sendSlackAlert\<close>

text \<open>
  \<open>env_webhook\<close> is \<open>process.env.SLACK_WEBHOOK_URL\<close>, \<open>post\<close> the outcome of the
  POST to the webhook if one is sent. A response that is not ok and a rejected request
  both end in \<open>return false\<close>.
\<close>

definition sendSlackAlert ::
  "jsstring option \<Rightarrow> jsstring \<Rightarrow> fetch_outcome \<Rightarrow> HealthCheckResult list \<Rightarrow> jsstring
     \<Rightarrow> jsstring option \<Rightarrow> bool \<times> effect list" where
  "sendSlackAlert env_webhook timestamp post results baseUrl webhookUrl =
     (let webhook = js_or webhookUrl env_webhook in
      if \<not> truthy webhook then (False, [])
      else
        let failedChecks = filter (\<lambda>r. \<not> success r) results in
        if length failedChecks = 0 then (True, [])
        else
          let message = formatHealthAlert timestamp results baseUrl;
              sent = [Post (or_default webhook []) message]
          in (case post of
                Responds st stext ms \<Rightarrow> if \<not> response_ok st then (False, sent) else (True, sent)
              | Rejects e ms \<Rightarrow> (False, sent)))"

section \<open>The route handlers\<close>

record process_env =
  CRON_SECRET :: "jsstring option"
  NODE_ENV :: "jsstring option"
  SLACK_WEBHOOK_URL :: "jsstring option"
  NEXT_PUBLIC_CONVEX_URL :: "jsstring option"

subsection \<open>GET /api/cron/health-check\<close>

text \<open>The two headers that the handler reads; \<open>None\<close> is the \<open>null\<close> of \<open>headers.get\<close>.\<close>

record request =
  authorization :: "jsstring option"
  host :: "jsstring option"

text \<open>
  The world of one invocation: the outcome of attempt \<open>k\<close> of a GET to each URL, the
  outcome of the POST to the webhook, and the two readings of the clock as strings.
\<close>

record world =
  http_get :: "jsstring \<Rightarrow> nat \<Rightarrow> fetch_outcome"
  http_post :: fetch_outcome
  now_locale :: jsstring
  now_iso :: jsstring

record cron_summary =
  cron_success :: bool
  cron_timestamp :: jsstring
  duration :: nat
  results :: "HealthCheckResult list"
  alertSent :: bool

datatype cron_body = ErrorBody jsstring | Summary cron_summary

record cron_response =
  http_status :: nat
  body :: cron_body

text \<open>Milliseconds that a sequence of effects takes.\<close>

fun elapsed :: "effect list \<Rightarrow> nat" where
  "elapsed [] = 0"
| "elapsed (Fetch u ms # es) = ms + elapsed es"
| "elapsed (Sleep d # es) = nat d + elapsed es"
| "elapsed (Post u m # es) = elapsed es"

text \<open>Step 2 of the handler: the base URL, from the environment and the host header.\<close>

definition request_baseUrl :: "process_env \<Rightarrow> request \<Rightarrow> jsstring" where
  "request_baseUrl env req =
     (let protocol = (if NODE_ENV env = Some (utf16 ''production'')
                      then utf16 ''https'' else utf16 ''http'');
          hostname = or_default (host req) (utf16 ''localhost:3000'')
      in protocol @ utf16 ''://'' @ hostname)"

text \<open>
  The two probes of \<open>Promise.all\<close> run concurrently on different URLs; the result array
  is in the order of the calls. The effects of the first probe are listed before those
  of the second, and the duration is that of the slower probe. \<open>sendSlackAlert\<close>
  catches what it awaits, so the handler's own \<open>catch\<close> around it is never entered.
  \<open>NextResponse.json\<close> without a status is a 200 response.
\<close>

definition cron_GET :: "process_env \<Rightarrow> world \<Rightarrow> request \<Rightarrow> cron_response \<times> effect list" where
  "cron_GET env w req =
     (let authHeader = authorization req;
          expectedSecret = CRON_SECRET env
      in if \<not> truthy expectedSecret then
           (\<lparr>http_status = 401, body = ErrorBody (utf16 ''Cron secret not configured'')\<rparr>, [])
         else
           let expectedAuth = utf16 ''Bearer '' @ or_default expectedSecret [] in
           if \<not> truthy authHeader \<or> authHeader \<noteq> Some expectedAuth then
             (\<lparr>http_status = 401, body = ErrorBody (utf16 ''Unauthorized'')\<rparr>, [])
           else
             let baseUrl = request_baseUrl env req;
                 (r1, t1) = executeHealthCheck (http_get w (baseUrl @ utf16 ''/''))
                              (baseUrl @ utf16 ''/'') 1 5000;
                 (r2, t2) = executeHealthCheck (http_get w (baseUrl @ utf16 ''/api/health''))
                              (baseUrl @ utf16 ''/api/health'') 1 5000;
                 rs = [r1, r2];
                 dur = max (elapsed t1) (elapsed t2);
                 allPassed = list_all success rs;
                 t3 = (if \<not> allPassed
                       then snd (sendSlackAlert (SLACK_WEBHOOK_URL env) (now_locale w)
                                   (http_post w) rs baseUrl None)
                       else [])
             in (\<lparr>http_status = 200,
                  body = Summary
                    \<lparr>cron_success = allPassed, cron_timestamp = now_iso w, duration = dur,
                     results = map (\<lambda>r. \<lparr>url = url r, success = success r, status = status r,
                                           error = error r, attempts = attempts r,
                                           responseTime = responseTime r\<rparr>) rs,
                     alertSent = (\<not> allPassed)\<rparr>\<rparr>,
                 t1 @ t2 @ t3))"

subsection \<open>GET /api/health\<close>

datatype health_status = StatusOk | StatusError

record health_checks =
  convex :: bool
  environment :: bool

record HealthCheckResponse =
  health_status :: health_status
  health_timestamp :: jsstring
  checks :: health_checks
  health_error :: "jsstring option"

record health_response =
  health_http_status :: nat
  health_body :: HealthCheckResponse

text \<open>
  \<open>stamp\<close> is the reading of the clock; \<open>fault\<close> is the value thrown inside the
  \<open>try\<close> block, if anything there throws.
\<close>

definition health_GET :: "process_env \<Rightarrow> jsstring \<Rightarrow> thrown option \<Rightarrow> health_response" where
  "health_GET env stamp fault =
     (case fault of
        None \<Rightarrow>
          let convexUrl = NEXT_PUBLIC_CONVEX_URL env;
              convexHealthy = (truthy convexUrl \<and> length (or_default convexUrl []) > 0);
              nodeEnv = NODE_ENV env;
              environmentHealthy = truthy nodeEnv;
              allHealthy = (convexHealthy \<and> environmentHealthy);
              errors = (if \<not> convexHealthy then [utf16 ''Convex URL not configured''] else [])
                     @ (if \<not> environmentHealthy then [utf16 ''Environment not configured'']
                        else [])
          in \<lparr>health_http_status = (if allHealthy then 200 else 503),
              health_body =
                \<lparr>health_status = (if allHealthy then StatusOk else StatusError),
                 health_timestamp = stamp,
                 checks = \<lparr>convex = convexHealthy, environment = environmentHealthy\<rparr>,
                 health_error = (if \<not> allHealthy then Some (js_join (utf16 '', '') errors)
                                 else None)\<rparr>\<rparr>
      | Some err \<Rightarrow>
          \<lparr>health_http_status = 503,
           health_body =
             \<lparr>health_status = StatusError,
              health_timestamp = stamp,
              checks = \<lparr>convex = False, environment = False\<rparr>,
              health_error = Some (case err of ErrorObj m \<Rightarrow> m
                                   | NonError \<Rightarrow> utf16 ''Unknown error occurred'')\<rparr>\<rparr>)"

section \<open>Properties of the signup mutation\<close>

subsection \<open>The regular expression accepts exactly the specified shape\<close>

lemma rx_test_One:
  "rx_test (One a # ts) s \<longleftrightarrow> (\<exists>c r. s = c # r \<and> atom_ok a c \<and> rx_test ts r)"
  by (cases s) auto

lemma rx_test_Plus:
  "rx_test (Plus a # ts) s \<longleftrightarrow>
     (\<exists>p r. s = p @ r \<and> p \<noteq> [] \<and> (\<forall>x \<in> set p. atom_ok a x) \<and> rx_test ts r)"
proof (induction s)
  case Nil
  show ?case by simp
next
  case (Cons c cs)
  show ?case
  proof
    assume L: "rx_test (Plus a # ts) (c # cs)"
    then have ok: "atom_ok a c" by simp
    from L consider "rx_test (Plus a # ts) cs" | "rx_test ts cs" by auto
    then show "\<exists>p r. c # cs = p @ r \<and> p \<noteq> [] \<and> (\<forall>x \<in> set p. atom_ok a x) \<and> rx_test ts r"
    proof cases
      case 1
      with Cons.IH obtain p r where "cs = p @ r" "\<forall>x \<in> set p. atom_ok a x" "rx_test ts r"
        by blast
      with ok have "c # cs = (c # p) @ r \<and> c # p \<noteq> [] \<and> (\<forall>x \<in> set (c # p). atom_ok a x) \<and> rx_test ts r"
        by simp
      then show ?thesis by blast
    next
      case 2
      with ok have "c # cs = [c] @ cs \<and> [c] \<noteq> [] \<and> (\<forall>x \<in> set [c]. atom_ok a x) \<and> rx_test ts cs"
        by simp
      then show ?thesis by blast
    qed
  next
    assume "\<exists>p r. c # cs = p @ r \<and> p \<noteq> [] \<and> (\<forall>x \<in> set p. atom_ok a x) \<and> rx_test ts r"
    then obtain p r where pr: "c # cs = p @ r" "p \<noteq> []" "\<forall>x \<in> set p. atom_ok a x" "rx_test ts r"
      by blast
    then obtain p' where p: "p = c # p'" by (cases p) auto
    with pr have cs: "cs = p' @ r" and ok: "atom_ok a c" and ok': "\<forall>x \<in> set p'. atom_ok a x"
      by auto
    show "rx_test (Plus a # ts) (c # cs)"
    proof (cases "p' = []")
      case True
      with cs pr(4) ok show ?thesis by simp
    next
      case False
      with cs ok' pr(4) Cons.IH have "rx_test (Plus a # ts) cs" by blast
      with ok show ?thesis by simp
    qed
  qed
qed

lemma rx_test_PlusI:
  "p \<noteq> [] \<Longrightarrow> \<forall>x \<in> set p. atom_ok a x \<Longrightarrow> rx_test ts r \<Longrightarrow> rx_test (Plus a # ts) (p @ r)"
  unfolding rx_test_Plus by blast

lemma emailRegex_shape: "rx_test emailRegex s \<longleftrightarrow> spec_email_shape s"
proof
  assume "rx_test emailRegex s"
  then obtain a r1 where a: "s = a @ r1" "a \<noteq> []" "\<forall>x \<in> set a. \<not> space_or_at x"
    and r1: "rx_test [One (Chr 0x40), Plus (NegClass space_or_at), One (Chr 0x2E),
                      Plus (NegClass space_or_at)] r1"
    unfolding emailRegex_def rx_test_Plus [of _ "One (Chr 0x40) # _"] by auto
  from r1 obtain r2 where r2: "r1 = 0x40 # r2"
    "rx_test [Plus (NegClass space_or_at), One (Chr 0x2E), Plus (NegClass space_or_at)] r2"
    unfolding rx_test_One by auto
  from r2(2) obtain b r3 where b: "r2 = b @ r3" "b \<noteq> []" "\<forall>x \<in> set b. \<not> space_or_at x"
    and r3: "rx_test [One (Chr 0x2E), Plus (NegClass space_or_at)] r3"
    unfolding rx_test_Plus [of _ "One (Chr 0x2E) # _"] by auto
  from r3 obtain r4 where r4: "r3 = 0x2E # r4" "rx_test [Plus (NegClass space_or_at)] r4"
    unfolding rx_test_One by auto
  from r4(2) have c: "r4 \<noteq> []" "\<forall>x \<in> set r4. \<not> space_or_at x"
    unfolding rx_test_Plus [of _ "[]"] by auto
  have "s = a @ [0x40] @ b @ [0x2E] @ r4"
    using a(1) r2(1) b(1) r4(1) by simp
  moreover have "\<forall>x \<in> set (a @ b @ r4). \<not> js_space x \<and> x \<noteq> 0x40"
    using a(3) b(3) c(2) by (auto simp: space_or_at_def)
  ultimately show "spec_email_shape s"
    unfolding spec_email_shape_def using a(2) b(2) c(1) by blast
next
  assume "spec_email_shape s"
  then obtain a b c where s: "s = a @ [0x40] @ b @ [0x2E] @ c"
    and ne: "a \<noteq> []" "b \<noteq> []" "c \<noteq> []"
    and ok: "\<forall>x \<in> set (a @ b @ c). \<not> js_space x \<and> x \<noteq> 0x40"
    unfolding spec_email_shape_def by blast
  from ok have oka: "\<forall>x \<in> set a. atom_ok (NegClass space_or_at) x"
    and okb: "\<forall>x \<in> set b. atom_ok (NegClass space_or_at) x"
    and okc: "\<forall>x \<in> set c. atom_ok (NegClass space_or_at) x"
    by (auto simp: space_or_at_def)
  have "rx_test [Plus (NegClass space_or_at)] (c @ [])"
    by (rule rx_test_PlusI [OF ne(3) okc]) simp
  then have "rx_test [One (Chr 0x2E), Plus (NegClass space_or_at)] (0x2E # c)"
    by simp
  then have "rx_test [Plus (NegClass space_or_at), One (Chr 0x2E), Plus (NegClass space_or_at)]
               (b @ 0x2E # c)"
    by (rule rx_test_PlusI [OF ne(2) okb])
  then have "rx_test [One (Chr 0x40), Plus (NegClass space_or_at), One (Chr 0x2E),
               Plus (NegClass space_or_at)] (0x40 # b @ 0x2E # c)"
    by simp
  then have "rx_test emailRegex (a @ 0x40 # b @ 0x2E # c)"
    unfolding emailRegex_def by (rule rx_test_PlusI [OF ne(1) oka])
  then show "rx_test emailRegex s" using s by simp
qed

subsection \<open>The two outcomes of a valid submission\<close>

lemma find_snoc_None:
  "find P xs = None \<Longrightarrow> find P (xs @ [d]) = (if P d then Some d else None)"
  by (induction xs) (auto split: if_splits)

lemma createSignup_new:
  assumes "rx_test emailRegex addr" and "\<forall>d \<in> set (signups ctx). email d \<noteq> addr"
  shows "createSignup ctx addr =
           (Inr \<lparr>reply_success = True, duplicate = False\<rparr>,
            ctx\<lparr>signups := signups ctx @ [\<lparr>email = addr, source = Some (utf16 ''landing-page'')\<rparr>],
                oplog := oplog ctx @ [IndexQuery addr,
                           Insert \<lparr>email = addr, source = Some (utf16 ''landing-page'')\<rparr>]\<rparr>)"
proof -
  from assms(2) have "find (\<lambda>d. email d = addr) (signups ctx) = None"
    by (simp add: find_None_iff)
  with assms(1) show ?thesis
    by (simp add: createSignup_def query_by_email_first_def db_insert_def)
qed

lemma createSignup_existing:
  assumes "rx_test emailRegex addr" and "\<exists>d \<in> set (signups ctx). email d = addr"
  shows "createSignup ctx addr =
           (Inr \<lparr>reply_success = True, duplicate = True\<rparr>,
            ctx\<lparr>oplog := oplog ctx @ [IndexQuery addr]\<rparr>)"
proof -
  from assms(2) obtain d where "find (\<lambda>d. email d = addr) (signups ctx) = Some d"
    by (cases "find (\<lambda>d. email d = addr) (signups ctx)") (auto simp: find_None_iff)
  with assms(1) show ?thesis
    by (simp add: createSignup_def query_by_email_first_def)
qed

lemma createSignup_valid:
  assumes "rx_test emailRegex addr"
  shows "createSignup ctx addr =
           (if \<exists>d \<in> set (signups ctx). email d = addr
            then (Inr \<lparr>reply_success = True, duplicate = True\<rparr>,
                  ctx\<lparr>oplog := oplog ctx @ [IndexQuery addr]\<rparr>)
            else (Inr \<lparr>reply_success = True, duplicate = False\<rparr>,
                  ctx\<lparr>signups := signups ctx
                          @ [\<lparr>email = addr, source = Some (utf16 ''landing-page'')\<rparr>],
                      oplog := oplog ctx @ [IndexQuery addr,
                          Insert \<lparr>email = addr, source = Some (utf16 ''landing-page'')\<rparr>]\<rparr>))"
  using createSignup_new [OF assms, of ctx] createSignup_existing [OF assms, of ctx]
  by auto

text \<open>
  Claim C3. An email that does not have the shape "one or more non-whitespace, non-"@"
  characters, "@", one or more such characters, ".", one or more such characters" makes
  \<open>createSignup\<close> fail with the error "Invalid email format"; the context comes back
  as it was, table and operation log alike: no query and no insert was issued.
\<close>

theorem createSignup_invalid:
  "\<not> spec_email_shape addr \<Longrightarrow>
     createSignup ctx addr = (Inl (Error (utf16 ''Invalid email format'')), ctx)"
  by (simp add: createSignup_def emailRegex_shape)

theorem createSignup_invalid_witness:
  "\<not> spec_email_shape (utf16 ''a b@ex.io'')
   \<and> createSignup \<lparr>signups = [], oplog = []\<rparr> (utf16 ''a b@ex.io'')
       = (Inl (Error (utf16 ''Invalid email format'')), \<lparr>signups = [], oplog = []\<rparr>)"
proof -
  have "\<not> rx_test emailRegex (utf16 ''a b@ex.io'')"
    by code_simp
  then have h: "\<not> spec_email_shape (utf16 ''a b@ex.io'')"
    by (simp add: emailRegex_shape)
  from h createSignup_invalid [OF h] show ?thesis by simp
qed

text \<open>
  Claim C2. For a valid email with no record in the table, two calls in sequence return
  \<open>{success: true, duplicate: false}\<close> and then \<open>{success: true, duplicate: true}\<close>.
  The first call appends one record; the second call leaves the table as it is and
  issues only the index query, so one insert is made across both calls, and neither call
  raises an error.
\<close>

theorem createSignup_twice:
  assumes "spec_email_shape addr" and "\<forall>d \<in> set (signups ctx). email d \<noteq> addr"
  shows "(let (r1, ctx1) = createSignup ctx addr; (r2, ctx2) = createSignup ctx1 addr;
              doc = \<lparr>email = addr, source = Some (utf16 ''landing-page'')\<rparr>
          in r1 = Inr \<lparr>reply_success = True, duplicate = False\<rparr>
           \<and> r2 = Inr \<lparr>reply_success = True, duplicate = True\<rparr>
           \<and> signups ctx1 = signups ctx @ [doc]
           \<and> signups ctx2 = signups ctx1
           \<and> oplog ctx1 = oplog ctx @ [IndexQuery addr, Insert doc]
           \<and> oplog ctx2 = oplog ctx1 @ [IndexQuery addr])"
proof -
  from assms(1) have v: "rx_test emailRegex addr" by (simp add: emailRegex_shape)
  let ?doc = "\<lparr>email = addr, source = Some (utf16 ''landing-page'')\<rparr>"
  let ?ctx1 = "ctx\<lparr>signups := signups ctx @ [?doc],
                   oplog := oplog ctx @ [IndexQuery addr, Insert ?doc]\<rparr>"
  have 1: "createSignup ctx addr = (Inr \<lparr>reply_success = True, duplicate = False\<rparr>, ?ctx1)"
    by (rule createSignup_new [OF v assms(2)])
  have "\<exists>d \<in> set (signups ?ctx1). email d = addr" by simp
  then have 2: "createSignup ?ctx1 addr =
      (Inr \<lparr>reply_success = True, duplicate = True\<rparr>, ?ctx1\<lparr>oplog := oplog ?ctx1 @ [IndexQuery addr]\<rparr>)"
    by (rule createSignup_existing [OF v])
  show ?thesis by (simp add: 1 2)
qed

theorem createSignup_twice_witness:
  "spec_email_shape (utf16 ''ann@ex.io'')
   \<and> (let (r1, ctx1) = createSignup \<lparr>signups = [], oplog = []\<rparr> (utf16 ''ann@ex.io'');
          (r2, ctx2) = createSignup ctx1 (utf16 ''ann@ex.io'');
          doc = \<lparr>email = utf16 ''ann@ex.io'', source = Some (utf16 ''landing-page'')\<rparr>
      in r1 = Inr \<lparr>reply_success = True, duplicate = False\<rparr>
       \<and> r2 = Inr \<lparr>reply_success = True, duplicate = True\<rparr>
       \<and> signups ctx1 = [doc]
       \<and> signups ctx2 = [doc]
       \<and> oplog ctx2 = [IndexQuery (utf16 ''ann@ex.io''), Insert doc,
                        IndexQuery (utf16 ''ann@ex.io'')])"
proof -
  have "rx_test emailRegex (utf16 ''ann@ex.io'')"
    by code_simp
  then have h1: "spec_email_shape (utf16 ''ann@ex.io'')"
    by (simp add: emailRegex_shape)
  have h2: "\<forall>d \<in> set (signups \<lparr>signups = [], oplog = []\<rparr>). email d \<noteq> utf16 ''ann@ex.io''"
    by simp
  from h1 h2 createSignup_twice [OF h1 h2] show ?thesis
    by (simp add: Let_def split: prod.splits)
qed

text \<open>
  Claim C10. The email is not normalised and the lookup is by exact equality of the
  strings: a valid submission is reported as a duplicate exactly when a stored email
  equals it, and registering a different string does not change that. So for any two
  valid emails that are different strings (in particular two that differ only in letter
  case), neither on record, registering both creates two records, each call reporting
  \<open>duplicate: false\<close>, and each new record carries the email as submitted and the
  source tag "landing-page".
\<close>

theorem createSignup_exact_match:
  assumes "spec_email_shape e1" and "spec_email_shape e2" and "e1 \<noteq> e2"
  shows "(fst (createSignup ctx e2) = Inr \<lparr>reply_success = True, duplicate = True\<rparr>
            \<longleftrightarrow> (\<exists>d \<in> set (signups ctx). email d = e2))
       \<and> fst (createSignup (snd (createSignup ctx e1)) e2) = fst (createSignup ctx e2)
       \<and> ((\<forall>d \<in> set (signups ctx). email d \<noteq> e1 \<and> email d \<noteq> e2) \<longrightarrow>
            (let (r1, ctx1) = createSignup ctx e1; (r2, ctx2) = createSignup ctx1 e2
             in r1 = Inr \<lparr>reply_success = True, duplicate = False\<rparr>
              \<and> r2 = Inr \<lparr>reply_success = True, duplicate = False\<rparr>
              \<and> signups ctx2 = signups ctx @
                  [\<lparr>email = e1, source = Some (utf16 ''landing-page'')\<rparr>,
                   \<lparr>email = e2, source = Some (utf16 ''landing-page'')\<rparr>]))"
proof -
  from assms(1,2) have v: "rx_test emailRegex e1" "rx_test emailRegex e2"
    by (simp_all add: emailRegex_shape)
  have dup: "fst (createSignup c e2) = Inr \<lparr>reply_success = True, duplicate = True\<rparr>
               \<longleftrightarrow> (\<exists>d \<in> set (signups c). email d = e2)" for c
    by (simp add: createSignup_valid [OF v(2)])
  have keep: "(\<exists>d \<in> set (signups (snd (createSignup ctx e1))). email d = e2)
                \<longleftrightarrow> (\<exists>d \<in> set (signups ctx). email d = e2)"
    using assms(3) by (auto simp: createSignup_valid [OF v(1)])
  have same: "fst (createSignup (snd (createSignup ctx e1)) e2) = fst (createSignup ctx e2)"
    using keep by (simp add: createSignup_valid [OF v(2)])
  have fresh: "(let (r1, ctx1) = createSignup ctx e1; (r2, ctx2) = createSignup ctx1 e2
             in r1 = Inr \<lparr>reply_success = True, duplicate = False\<rparr>
              \<and> r2 = Inr \<lparr>reply_success = True, duplicate = False\<rparr>
              \<and> signups ctx2 = signups ctx @
                  [\<lparr>email = e1, source = Some (utf16 ''landing-page'')\<rparr>,
                   \<lparr>email = e2, source = Some (utf16 ''landing-page'')\<rparr>])"
    if f: "\<forall>d \<in> set (signups ctx). email d \<noteq> e1 \<and> email d \<noteq> e2"
  proof -
    let ?d1 = "\<lparr>email = e1, source = Some (utf16 ''landing-page'')\<rparr>"
    let ?ctx1 = "ctx\<lparr>signups := signups ctx @ [?d1],
                     oplog := oplog ctx @ [IndexQuery e1, Insert ?d1]\<rparr>"
    from f have f1: "\<forall>d \<in> set (signups ctx). email d \<noteq> e1" by blast
    have 1: "createSignup ctx e1 = (Inr \<lparr>reply_success = True, duplicate = False\<rparr>, ?ctx1)"
      by (rule createSignup_new [OF v(1) f1])
    from assms(3) f have f2: "\<forall>d \<in> set (signups ?ctx1). email d \<noteq> e2" by auto
    have 2: "createSignup ?ctx1 e2 = (Inr \<lparr>reply_success = True, duplicate = False\<rparr>,
        ?ctx1\<lparr>signups := signups ?ctx1 @ [\<lparr>email = e2, source = Some (utf16 ''landing-page'')\<rparr>],
              oplog := oplog ?ctx1 @ [IndexQuery e2,
                         Insert \<lparr>email = e2, source = Some (utf16 ''landing-page'')\<rparr>]\<rparr>)"
      by (rule createSignup_new [OF v(2) f2])
    show ?thesis by (simp add: 1 2)
  qed
  from dup same fresh show ?thesis by blast
qed

theorem createSignup_exact_match_witness:
  "spec_email_shape (utf16 ''Ann@ex.io'') \<and> spec_email_shape (utf16 ''ann@ex.io'')
   \<and> utf16 ''Ann@ex.io'' \<noteq> utf16 ''ann@ex.io''
   \<and> (let (r1, ctx1) = createSignup \<lparr>signups = [], oplog = []\<rparr> (utf16 ''Ann@ex.io'');
          (r2, ctx2) = createSignup ctx1 (utf16 ''ann@ex.io'')
      in r1 = Inr \<lparr>reply_success = True, duplicate = False\<rparr>
       \<and> r2 = Inr \<lparr>reply_success = True, duplicate = False\<rparr>
       \<and> signups ctx2 =
           [\<lparr>email = utf16 ''Ann@ex.io'', source = Some (utf16 ''landing-page'')\<rparr>,
            \<lparr>email = utf16 ''ann@ex.io'', source = Some (utf16 ''landing-page'')\<rparr>])"
proof -
  have "rx_test emailRegex (utf16 ''Ann@ex.io'')"
    by code_simp
  then have h1: "spec_email_shape (utf16 ''Ann@ex.io'')"
    by (simp add: emailRegex_shape)
  have "rx_test emailRegex (utf16 ''ann@ex.io'')"
    by code_simp
  then have h2: "spec_email_shape (utf16 ''ann@ex.io'')"
    by (simp add: emailRegex_shape)
  have h3: "utf16 ''Ann@ex.io'' \<noteq> utf16 ''ann@ex.io''"
    by code_simp
  have h4: "\<forall>d \<in> set (signups \<lparr>signups = [], oplog = []\<rparr>).
         email d \<noteq> utf16 ''Ann@ex.io'' \<and> email d \<noteq> utf16 ''ann@ex.io''"
    by simp
  from createSignup_exact_match [OF h1 h2 h3, of "\<lparr>signups = [], oplog = []\<rparr>"] h4
  have "(let (r1, ctx1) = createSignup \<lparr>signups = [], oplog = []\<rparr> (utf16 ''Ann@ex.io'');
          (r2, ctx2) = createSignup ctx1 (utf16 ''ann@ex.io'')
      in r1 = Inr \<lparr>reply_success = True, duplicate = False\<rparr>
       \<and> r2 = Inr \<lparr>reply_success = True, duplicate = False\<rparr>
       \<and> signups ctx2 = signups \<lparr>signups = [], oplog = []\<rparr> @
           [\<lparr>email = utf16 ''Ann@ex.io'', source = Some (utf16 ''landing-page'')\<rparr>,
            \<lparr>email = utf16 ''ann@ex.io'', source = Some (utf16 ''landing-page'')\<rparr>])"
    by blast
  with h1 h2 h3 show ?thesis
    by (simp add: Let_def split: prod.splits)
qed

section \<open>Properties of executeHealthCheck\<close>

subsection \<open>Runs in which every attempt fails\<close>

lemma attempt_loop_fail_fields:
  assumes "\<forall>k. attempt \<le> k \<and> int k \<le> retries \<longrightarrow> fails (net k)"
  shows "success (fst (attempt_loop net u retries d attempt le ls tr)) = False
       \<and> url (fst (attempt_loop net u retries d attempt le ls tr)) = u
       \<and> attempts (fst (attempt_loop net u retries d attempt le ls tr)) = retries + 1
       \<and> responseTime (fst (attempt_loop net u retries d attempt le ls tr)) = None"
  using assms
proof (induction net u retries d attempt le ls tr rule: attempt_loop.induct)
  case (1 net u retries delayMs attempt lastError lastStatus tr)
  show ?case
  proof (cases "int attempt \<le> retries")
    case False
    then show ?thesis by (simp add: attempt_loop.simps)
  next
    case True
    with "1.prems" have f: "fails (net attempt)" by simp
    from "1.prems" have rest: "\<forall>k. attempt + 1 \<le> k \<and> int k \<le> retries \<longrightarrow> fails (net k)"
      by simp
    show ?thesis
    proof (cases "net attempt")
      case (Responds st stext ms)
      with f have nok: "\<not> response_ok st" by simp
      from "1.IH"(1) [OF True Responds nok rest] True Responds nok show ?thesis
        by (subst (1 2 3 4) attempt_loop.simps) simp
    next
      case (Rejects e ms)
      from "1.IH"(2) [OF True Rejects rest] True Rejects show ?thesis
        by (subst (1 2 3 4) attempt_loop.simps) simp
    qed
  qed
qed

lemma attempt_loop_fail_error:
  assumes "\<forall>k. attempt \<le> k \<and> int k \<le> retries \<longrightarrow> fails (net k)"
  shows "error (fst (attempt_loop net u retries d attempt le ls tr)) =
           Some (if int attempt \<le> retries then recorded_error (net (nat retries)) else le)"
  using assms
proof (induction net u retries d attempt le ls tr rule: attempt_loop.induct)
  case (1 net u retries delayMs attempt lastError lastStatus tr)
  show ?case
  proof (cases "int attempt \<le> retries")
    case False
    then show ?thesis by (simp add: attempt_loop.simps)
  next
    case True
    with "1.prems" have f: "fails (net attempt)" by simp
    from "1.prems" have rest: "\<forall>k. attempt + 1 \<le> k \<and> int k \<le> retries \<longrightarrow> fails (net k)"
      by simp
    have last: "\<not> int (attempt + 1) \<le> retries \<Longrightarrow> nat retries = attempt"
      using True by simp
    show ?thesis
    proof (cases "net attempt")
      case (Responds st stext ms)
      with f have nok: "\<not> response_ok st" by simp
      from "1.IH"(1) [OF True Responds nok rest] True Responds nok last show ?thesis
        by (subst attempt_loop.simps) (auto simp del: of_nat_add of_nat_Suc)
    next
      case (Rejects e ms)
      from "1.IH"(2) [OF True Rejects rest] True Rejects last show ?thesis
        by (subst attempt_loop.simps) (auto simp del: of_nat_add of_nat_Suc)
    qed
  qed
qed

lemma attempt_loop_fail_fetches:
  assumes "\<forall>k. attempt \<le> k \<and> int k \<le> retries \<longrightarrow> fails (net k)"
  shows "int (length (filter is_Fetch (snd (attempt_loop net u retries d attempt le ls tr)))) =
           int (length (filter is_Fetch tr))
           + (if int attempt \<le> retries then retries + 1 - int attempt else 0)"
  using assms
proof (induction net u retries d attempt le ls tr rule: attempt_loop.induct)
  case (1 net u retries delayMs attempt lastError lastStatus tr)
  show ?case
  proof (cases "int attempt \<le> retries")
    case False
    then show ?thesis by (simp add: attempt_loop.simps)
  next
    case True
    with "1.prems" have f: "fails (net attempt)" by simp
    from "1.prems" have rest: "\<forall>k. attempt + 1 \<le> k \<and> int k \<le> retries \<longrightarrow> fails (net k)"
      by simp
    show ?thesis
    proof (cases "net attempt")
      case (Responds st stext ms)
      with f have nok: "\<not> response_ok st" by simp
      from "1.IH"(1) [OF True Responds nok rest] True Responds nok show ?thesis
        by (subst attempt_loop.simps) auto
    next
      case (Rejects e ms)
      from "1.IH"(2) [OF True Rejects rest] True Rejects show ?thesis
        by (subst attempt_loop.simps) auto
    qed
  qed
qed

lemma attempt_loop_status_rejects:
  assumes "\<forall>k. attempt \<le> k \<and> int k \<le> retries \<longrightarrow> is_Rejects (net k)"
  shows "status (fst (attempt_loop net u retries d attempt le ls tr)) = ls"
  using assms
proof (induction net u retries d attempt le ls tr rule: attempt_loop.induct)
  case (1 net u retries delayMs attempt lastError lastStatus tr)
  show ?case
  proof (cases "int attempt \<le> retries")
    case False
    then show ?thesis by (simp add: attempt_loop.simps)
  next
    case True
    with "1.prems" have f: "is_Rejects (net attempt)" by simp
    then obtain e ms where Rejects: "net attempt = Rejects e ms"
      by (cases "net attempt") auto
    from "1.prems" have rest: "\<forall>k. attempt + 1 \<le> k \<and> int k \<le> retries \<longrightarrow> is_Rejects (net k)"
      by simp
    from "1.IH"(2) [OF True Rejects rest] True Rejects show ?thesis
      by (subst attempt_loop.simps) simp
  qed
qed

lemma attempt_loop_status_response:
  assumes "\<forall>k. attempt \<le> k \<and> int k \<le> retries \<longrightarrow> fails (net k)"
    and "attempt \<le> k" and "int k \<le> retries" and "net k = Responds st stext ms"
    and "\<forall>j. k < j \<and> int j \<le> retries \<longrightarrow> is_Rejects (net j)"
  shows "status (fst (attempt_loop net u retries d attempt le ls tr)) = Some st"
  using assms
proof (induction net u retries d attempt le ls tr rule: attempt_loop.induct)
  case (1 net u retries delayMs attempt lastError lastStatus tr)
  from "1.prems"(2,3) have True: "int attempt \<le> retries" by simp
  with "1.prems"(1) have f: "fails (net attempt)" by simp
  from "1.prems"(1) have rest: "\<forall>k. attempt + 1 \<le> k \<and> int k \<le> retries \<longrightarrow> fails (net k)"
    by simp
  show ?case
  proof (cases "attempt = k")
    case same: True
    with "1.prems"(4) have R: "net attempt = Responds st stext ms" by simp
    with f have nok: "\<not> response_ok st" by simp
    from same "1.prems"(5)
    have "\<forall>j. attempt + 1 \<le> j \<and> int j \<le> retries \<longrightarrow> is_Rejects (net j)" by simp
    then have "status (fst (attempt_loop net u retries delayMs (attempt + 1)
                 (http_error_text st stext) (Some st) (tr @ [Fetch u ms]))) = Some st"
      by (rule attempt_loop_status_rejects)
    with True R nok show ?thesis
      by (subst attempt_loop.simps) simp
  next
    case False
    with "1.prems"(2) have lt: "attempt + 1 \<le> k" by simp
    show ?thesis
    proof (cases "net attempt")
      case (Responds st' stext' ms')
      with f have nok: "\<not> response_ok st'" by simp
      from "1.IH"(1) [OF True Responds nok rest lt "1.prems"(3,4,5)] True Responds nok
      show ?thesis by (subst attempt_loop.simps) simp
    next
      case (Rejects e ms')
      from "1.IH"(2) [OF True Rejects rest lt "1.prems"(3,4,5)] True Rejects
      show ?thesis by (subst attempt_loop.simps) simp
    qed
  qed
qed


subsection \<open>The result carries the probed URL\<close>

lemma attempt_loop_url: "url (fst (attempt_loop net u retries d attempt le ls tr)) = u"
proof (induction net u retries d attempt le ls tr rule: attempt_loop.induct)
  case (1 net u retries delayMs attempt lastError lastStatus tr)
  show ?case
  proof (cases "int attempt \<le> retries")
    case False
    then show ?thesis by (simp add: attempt_loop.simps)
  next
    case True
    show ?thesis
    proof (cases "net attempt")
      case (Responds st stext ms)
      show ?thesis
      proof (cases "response_ok st")
        case ok: True
        with True Responds show ?thesis by (simp add: attempt_loop.simps)
      next
        case nok: False
        from "1.IH"(1) [OF True Responds nok] True Responds nok show ?thesis
          by (subst attempt_loop.simps) simp
      qed
    next
      case (Rejects e ms)
      from "1.IH"(2) [OF True Rejects] True Rejects show ?thesis
        by (subst attempt_loop.simps) simp
    qed
  qed
qed

lemma executeHealthCheck_url: "url (fst (executeHealthCheck net u retries d)) = u"
  by (simp add: executeHealthCheck_def attempt_loop_url)

text \<open>
  Claim C5. With \<open>retries \<ge> 0\<close> and all \<open>retries + 1\<close> attempts failing, the result
  has \<open>success: false\<close> and \<open>attempts = retries + 1\<close>, which is the number of
  requests sent; its error is the one recorded by the final attempt, and its status is
  that of the last attempt that received a response (absent when every attempt
  rejected). The witness is the case \<open>retries = 1\<close>: a 500 response, then a timeout.
\<close>

theorem executeHealthCheck_all_fail:
  assumes "0 \<le> retries" and "\<forall>k. int k \<le> retries \<longrightarrow> fails (net k)"
  shows "success (fst (executeHealthCheck net u retries delayMs)) = False
       \<and> attempts (fst (executeHealthCheck net u retries delayMs)) = retries + 1
       \<and> int (length (filter is_Fetch (snd (executeHealthCheck net u retries delayMs))))
           = retries + 1
       \<and> error (fst (executeHealthCheck net u retries delayMs))
           = Some (recorded_error (net (nat retries)))
       \<and> (\<forall>k st stext ms.
             int k \<le> retries \<and> net k = Responds st stext ms
             \<and> (\<forall>j. k < j \<and> int j \<le> retries \<longrightarrow> is_Rejects (net j))
             \<longrightarrow> status (fst (executeHealthCheck net u retries delayMs)) = Some st)
       \<and> ((\<forall>k. int k \<le> retries \<longrightarrow> is_Rejects (net k))
             \<longrightarrow> status (fst (executeHealthCheck net u retries delayMs)) = None)"
proof -
  from assms(2) have all: "\<forall>k. 0 \<le> k \<and> int k \<le> retries \<longrightarrow> fails (net k)" by simp
  have 1: "success (fst (executeHealthCheck net u retries delayMs)) = False"
    and 2: "attempts (fst (executeHealthCheck net u retries delayMs)) = retries + 1"
    using attempt_loop_fail_fields [OF all] by (simp_all add: executeHealthCheck_def)
  have 3: "int (length (filter is_Fetch (snd (executeHealthCheck net u retries delayMs))))
             = retries + 1"
    using attempt_loop_fail_fetches [OF all, of u delayMs "[]" None "[]"] assms(1)
    by (simp add: executeHealthCheck_def)
  have 4: "error (fst (executeHealthCheck net u retries delayMs))
             = Some (recorded_error (net (nat retries)))"
    using attempt_loop_fail_error [OF all, of u delayMs "[]" None "[]"] assms(1)
    by (simp add: executeHealthCheck_def)
  have 5: "status (fst (executeHealthCheck net u retries delayMs)) = Some st"
    if "int k \<le> retries" "net k = Responds st stext ms"
       "\<forall>j. k < j \<and> int j \<le> retries \<longrightarrow> is_Rejects (net j)" for k st stext ms
    unfolding executeHealthCheck_def
    by (rule attempt_loop_status_response [OF all _ that]) simp
  have 6: "status (fst (executeHealthCheck net u retries delayMs)) = None"
    if "\<forall>k. int k \<le> retries \<longrightarrow> is_Rejects (net k)"
    unfolding executeHealthCheck_def
    by (rule attempt_loop_status_rejects) (use that in simp)
  from 1 2 3 4 5 6 show ?thesis by blast
qed

theorem executeHealthCheck_all_fail_witness:
  "fails (Responds 500 (utf16 ''Internal Server Error'') 80)
   \<and> fails (Rejects (ErrorObj (utf16 ''timeout'')) 10000)
   \<and> success (fst (executeHealthCheck
        (\<lambda>k. if k = 0 then Responds 500 (utf16 ''Internal Server Error'') 80
              else Rejects (ErrorObj (utf16 ''timeout'')) 10000)
        (utf16 ''https://gistgeo.ai/'') 1 5000)) = False
   \<and> attempts (fst (executeHealthCheck
        (\<lambda>k. if k = 0 then Responds 500 (utf16 ''Internal Server Error'') 80
              else Rejects (ErrorObj (utf16 ''timeout'')) 10000)
        (utf16 ''https://gistgeo.ai/'') 1 5000)) = 2
   \<and> error (fst (executeHealthCheck
        (\<lambda>k. if k = 0 then Responds 500 (utf16 ''Internal Server Error'') 80
              else Rejects (ErrorObj (utf16 ''timeout'')) 10000)
        (utf16 ''https://gistgeo.ai/'') 1 5000)) = Some (utf16 ''timeout'')
   \<and> status (fst (executeHealthCheck
        (\<lambda>k. if k = 0 then Responds 500 (utf16 ''Internal Server Error'') 80
              else Rejects (ErrorObj (utf16 ''timeout'')) 10000)
        (utf16 ''https://gistgeo.ai/'') 1 5000)) = Some 500"
proof -
  let ?net = "\<lambda>k::nat. if k = 0 then Responds 500 (utf16 ''Internal Server Error'') 80
              else Rejects (ErrorObj (utf16 ''timeout'')) 10000"
  have h1: "(0::int) \<le> 1" by simp
  have h2: "\<forall>k. int k \<le> 1 \<longrightarrow> fails (?net k)" by (simp add: response_ok_def)
  note T = executeHealthCheck_all_fail [of 1 ?net "utf16 ''https://gistgeo.ai/''" 5000, OF h1 h2]
  have "int 0 \<le> 1 \<and> ?net 0 = Responds 500 (utf16 ''Internal Server Error'') 80
        \<and> (\<forall>j. 0 < j \<and> int j \<le> 1 \<longrightarrow> is_Rejects (?net j))"
    by simp
  with T have st: "status (fst (executeHealthCheck ?net (utf16 ''https://gistgeo.ai/'') 1 5000))
                   = Some 500"
    by blast
  from T st show ?thesis by (simp add: response_ok_def)
qed

subsection \<open>The effects of a run in which every attempt fails\<close>

lemma attempt_loop_fail_effects:
  assumes "\<forall>k. attempt \<le> k \<and> int k \<le> retries \<longrightarrow> fails (net k)"
  shows "snd (attempt_loop net u retries d attempt le ls tr) =
           tr @ concat (map (\<lambda>k. attempt_effects u retries d k (net k))
                          [attempt ..< nat (retries + 1)])"
  using assms
proof (induction net u retries d attempt le ls tr rule: attempt_loop.induct)
  case (1 net u retries delayMs attempt lastError lastStatus tr)
  show ?case
  proof (cases "int attempt \<le> retries")
    case False
    then have "[attempt ..< nat (retries + 1)] = []" by simp
    with False show ?thesis by (simp add: attempt_loop.simps)
  next
    case True
    then have upt: "[attempt ..< nat (retries + 1)] = attempt # [attempt + 1 ..< nat (retries + 1)]"
      by (simp add: upt_conv_Cons)
    from True "1.prems" have f: "fails (net attempt)" by simp
    from "1.prems" have rest: "\<forall>k. attempt + 1 \<le> k \<and> int k \<le> retries \<longrightarrow> fails (net k)"
      by simp
    show ?thesis
    proof (cases "net attempt")
      case (Responds st stext ms)
      with f have nok: "\<not> response_ok st" by simp
      from "1.IH"(1) [OF True Responds nok rest] True Responds nok show ?thesis
        by (subst attempt_loop.simps) (simp add: upt)
    next
      case (Rejects e ms)
      from "1.IH"(2) [OF True Rejects rest] True Rejects show ?thesis
        by (subst attempt_loop.simps) (simp add: upt)
    qed
  qed
qed

lemma executeHealthCheck_fail_effects:
  assumes "\<forall>k. int k \<le> retries \<longrightarrow> fails (net k)"
  shows "snd (executeHealthCheck net u retries d) =
           concat (map (\<lambda>k. attempt_effects u retries d k (net k)) [0 ..< nat (retries + 1)])"
  using attempt_loop_fail_effects [of 0 retries net u d "[]" None "[]"] assms
  by (simp add: executeHealthCheck_def)

lemma executeHealthCheck_http_failures_never_sleep:
  assumes "\<forall>k. int k \<le> retries \<longrightarrow> fails (net k) \<and> \<not> is_Rejects (net k)"
  shows "filter is_Sleep (snd (executeHealthCheck net u retries d)) = []"
proof -
  from assms have all: "\<forall>k. int k \<le> retries \<longrightarrow> fails (net k)" by blast
  have "\<not> is_Sleep e" if "k < nat (retries + 1)" "e \<in> set (attempt_effects u retries d k (net k))"
    for k e
  proof -
    from that(1) assms have "\<not> is_Rejects (net k)" by simp
    with that(2) show ?thesis by (cases "net k") auto
  qed
  then show ?thesis
    unfolding executeHealthCheck_fail_effects [OF all] filter_empty_conv by auto
qed

text \<open>
  Claim C4. The delay between attempts is awaited inside the \<open>catch\<close> block only.
  A probe with \<open>retries = 1\<close> and \<open>delayMs = 5000\<close> whose two attempts both receive
  a 500 response sends its second request with no sleep in between; the same probe
  sleeps when the first request rejects.
\<close>

theorem executeHealthCheck_http_failure_no_sleep:
  "executeHealthCheck (\<lambda>k. Responds 500 (utf16 ''Internal Server Error'') 80)
     (utf16 ''https://gistgeo.ai/'') 1 5000 =
   (\<lparr>url = utf16 ''https://gistgeo.ai/'', success = False, status = Some 500,
     error = Some (http_error_text 500 (utf16 ''Internal Server Error'')),
     attempts = 2, responseTime = None\<rparr>,
    [Fetch (utf16 ''https://gistgeo.ai/'') 80, Fetch (utf16 ''https://gistgeo.ai/'') 80])"
  by (simp add: executeHealthCheck_def attempt_loop.simps response_ok_def)

lemma executeHealthCheck_rejection_sleeps:
  "snd (executeHealthCheck (\<lambda>k. Rejects (ErrorObj (utf16 ''timeout'')) 10000)
     (utf16 ''https://gistgeo.ai/'') 1 5000) =
    [Fetch (utf16 ''https://gistgeo.ai/'') 10000, Sleep 5000,
     Fetch (utf16 ''https://gistgeo.ai/'') 10000]"
  by (simp add: executeHealthCheck_def attempt_loop.simps)

section \<open>Properties of the alert formatter and dispatcher\<close>

text \<open>
  Claim C9, amended. The payload is a function of the two arguments and of the clock,
  which \<open>formatHealthAlert\<close> reads by itself: with the same formatted time, the same
  results and the same base URL give the same payload. The results enter only through
  those with \<open>success: false\<close>: the fields of the fourth block are built from exactly
  these, in order, and are empty when none failed. The formatted time enters only the
  last block: the text and all other blocks do not depend on it.
\<close>

theorem formatHealthAlert_failed_only:
  "formatHealthAlert timestamp rs baseUrl
     = formatHealthAlert timestamp (filter (\<lambda>r. \<not> success r) rs) baseUrl
   \<and> blk_fields (blocks (formatHealthAlert timestamp rs baseUrl) ! 3)
       = Some (concat (map result_fields (filter (\<lambda>r. \<not> success r) rs)))
   \<and> ((\<forall>r \<in> set rs. success r) \<longrightarrow>
        blk_fields (blocks (formatHealthAlert timestamp rs baseUrl) ! 3) = Some [])
   \<and> alert_text (formatHealthAlert timestamp rs baseUrl)
       = alert_text (formatHealthAlert timestamp' rs baseUrl)
   \<and> butlast (blocks (formatHealthAlert timestamp rs baseUrl))
       = butlast (blocks (formatHealthAlert timestamp' rs baseUrl))
   \<and> blk_elements (last (blocks (formatHealthAlert timestamp rs baseUrl)))
       = Some [mrkdwn ([0x23F0, 0x20] @ timestamp @ utf16 '' PST'')]"
proof -
  have f: "(\<forall>r \<in> set rs. success r) \<Longrightarrow> filter (\<lambda>r. \<not> success r) rs = []"
    by (simp add: filter_empty_conv)
  then show ?thesis
    by (simp add: formatHealthAlert_def Let_def)
qed

theorem formatHealthAlert_failed_only_witness:
  "blk_fields (blocks (formatHealthAlert (utf16 ''Nov 3, 2024, 4:00 AM'')
       [\<lparr>url = utf16 ''https://gistgeo.ai/'', success = True, status = Some 200, error = None,
         attempts = 1, responseTime = Some 30\<rparr>]
       (utf16 ''https://gistgeo.ai'')) ! 3) = Some []"
proof -
  let ?rs = "[\<lparr>url = utf16 ''https://gistgeo.ai/'', success = True, status = Some 200,
               error = None, attempts = 1, responseTime = Some 30\<rparr>]"
  have h: "\<forall>r \<in> set ?rs. success r" by simp
  from formatHealthAlert_failed_only [of "utf16 ''Nov 3, 2024, 4:00 AM''" ?rs
         "utf16 ''https://gistgeo.ai''"] h
  show ?thesis by blast
qed

text \<open>
  Claim C9 as stated ("a pure function of its two arguments") fails: the same empty
  result list and the same base URL, formatted at two different minutes, give two
  different payloads.
\<close>

theorem formatHealthAlert_clock_counterexample:
  "formatHealthAlert (utf16 ''Nov 3, 2024, 4:00 AM'') [] (utf16 ''https://gistgeo.ai'')
   \<noteq> formatHealthAlert (utf16 ''Nov 3, 2024, 4:05 AM'') [] (utf16 ''https://gistgeo.ai'')"
  by (simp add: formatHealthAlert_def mrkdwn_def utf16_def)

text \<open>
  Claim C7. With no webhook passed and none configured (absent or empty),
  \<open>sendSlackAlert\<close> returns \<open>false\<close> and sends nothing, whatever the results are.
  With a webhook available (the passed or else the configured one is a non-empty
  string) and no result with \<open>success: false\<close>, it returns \<open>true\<close> and sends nothing.
\<close>

theorem sendSlackAlert_skips:
  "(\<not> truthy webhookUrl \<and> \<not> truthy env_webhook \<longrightarrow>
      sendSlackAlert env_webhook timestamp post rs baseUrl webhookUrl = (False, []))
   \<and> (truthy (js_or webhookUrl env_webhook) \<and> (\<forall>r \<in> set rs. success r) \<longrightarrow>
      sendSlackAlert env_webhook timestamp post rs baseUrl webhookUrl = (True, []))"
proof (intro conjI impI)
  assume "\<not> truthy webhookUrl \<and> \<not> truthy env_webhook"
  then show "sendSlackAlert env_webhook timestamp post rs baseUrl webhookUrl = (False, [])"
    by (simp add: sendSlackAlert_def js_or_def)
next
  assume a: "truthy (js_or webhookUrl env_webhook) \<and> (\<forall>r \<in> set rs. success r)"
  then have "filter (\<lambda>r. \<not> success r) rs = []"
    by (simp add: filter_empty_conv)
  with a show "sendSlackAlert env_webhook timestamp post rs baseUrl webhookUrl = (True, [])"
    by (simp add: sendSlackAlert_def Let_def)
qed

theorem sendSlackAlert_skips_witness:
  "sendSlackAlert None (utf16 ''Nov 3, 2024, 4:00 AM'') (Responds 200 (utf16 ''OK'') 30)
     [\<lparr>url = utf16 ''https://gistgeo.ai/'', success = True, status = Some 200, error = None,
       attempts = 1, responseTime = Some 30\<rparr>]
     (utf16 ''https://gistgeo.ai'') None = (False, [])
   \<and> sendSlackAlert None (utf16 ''Nov 3, 2024, 4:00 AM'') (Responds 200 (utf16 ''OK'') 30)
     [\<lparr>url = utf16 ''https://gistgeo.ai/'', success = True, status = Some 200, error = None,
       attempts = 1, responseTime = Some 30\<rparr>]
     (utf16 ''https://gistgeo.ai'') (Some (utf16 ''https://hooks.slack.com/services/T'')) = (True, [])"
proof -
  let ?rs = "[\<lparr>url = utf16 ''https://gistgeo.ai/'', success = True, status = Some 200,
               error = None, attempts = 1, responseTime = Some 30\<rparr>]"
  have h1: "\<not> truthy None \<and> \<not> truthy None" by simp
  have h2: "truthy (js_or (Some (utf16 ''https://hooks.slack.com/services/T'')) None)
            \<and> (\<forall>r \<in> set ?rs. success r)"
    by (simp add: js_or_def utf16_def)
  from sendSlackAlert_skips [of None None "utf16 ''Nov 3, 2024, 4:00 AM''"
         "Responds 200 (utf16 ''OK'') 30" ?rs "utf16 ''https://gistgeo.ai''"] h1
  have 1: "sendSlackAlert None (utf16 ''Nov 3, 2024, 4:00 AM'') (Responds 200 (utf16 ''OK'') 30)
             ?rs (utf16 ''https://gistgeo.ai'') None = (False, [])"
    by blast
  from sendSlackAlert_skips [of "Some (utf16 ''https://hooks.slack.com/services/T'')" None
         "utf16 ''Nov 3, 2024, 4:00 AM''" "Responds 200 (utf16 ''OK'') 30" ?rs
         "utf16 ''https://gistgeo.ai''"] h2
  have 2: "sendSlackAlert None (utf16 ''Nov 3, 2024, 4:00 AM'') (Responds 200 (utf16 ''OK'') 30)
             ?rs (utf16 ''https://gistgeo.ai'')
             (Some (utf16 ''https://hooks.slack.com/services/T'')) = (True, [])"
    by blast
  from 1 2 show ?thesis by simp
qed

section \<open>Properties of the scheduled handler\<close>

text \<open>
  Claim C1. Unless the secret is set and the Authorization header is exactly
  "Bearer " followed by the secret (that is: when the secret is unset, or the header is
  missing, or it differs), the handler answers 401 with an error body and has no
  effect: no request is sent, no timer awaited, no alert posted.
\<close>

theorem cron_GET_unauthorized:
  assumes "\<not> (\<exists>s. CRON_SECRET env = Some s
                \<and> authorization req = Some (utf16 ''Bearer '' @ s))"
  shows "http_status (fst (cron_GET env w req)) = 401
       \<and> (\<exists>msg. body (fst (cron_GET env w req)) = ErrorBody msg)
       \<and> snd (cron_GET env w req) = []"
proof (cases "CRON_SECRET env")
  case None
  then show ?thesis by (simp add: cron_GET_def)
next
  case (Some s)
  with assms have "authorization req \<noteq> Some (utf16 ''Bearer '' @ s)" by simp
  with Some show ?thesis
    by (simp add: cron_GET_def Let_def or_default_def)
qed

theorem cron_GET_unauthorized_witness:
  "http_status (fst (cron_GET
       \<lparr>CRON_SECRET = Some (utf16 ''s3cret''), NODE_ENV = Some (utf16 ''production''),
        SLACK_WEBHOOK_URL = None, NEXT_PUBLIC_CONVEX_URL = None\<rparr>
       \<lparr>http_get = (\<lambda>u k. Responds 200 (utf16 ''OK'') 30),
        http_post = Responds 200 (utf16 ''OK'') 30,
        now_locale = utf16 ''Nov 3, 2024, 4:00 AM'', now_iso = utf16 ''2024-11-03T12:00:00.000Z''\<rparr>
       \<lparr>authorization = Some (utf16 ''Bearer guess''), host = Some (utf16 ''gistgeo.ai'')\<rparr>)) = 401
   \<and> snd (cron_GET
       \<lparr>CRON_SECRET = Some (utf16 ''s3cret''), NODE_ENV = Some (utf16 ''production''),
        SLACK_WEBHOOK_URL = None, NEXT_PUBLIC_CONVEX_URL = None\<rparr>
       \<lparr>http_get = (\<lambda>u k. Responds 200 (utf16 ''OK'') 30),
        http_post = Responds 200 (utf16 ''OK'') 30,
        now_locale = utf16 ''Nov 3, 2024, 4:00 AM'', now_iso = utf16 ''2024-11-03T12:00:00.000Z''\<rparr>
       \<lparr>authorization = Some (utf16 ''Bearer guess''), host = Some (utf16 ''gistgeo.ai'')\<rparr>) = []"
proof -
  let ?env = "\<lparr>CRON_SECRET = Some (utf16 ''s3cret''), NODE_ENV = Some (utf16 ''production''),
        SLACK_WEBHOOK_URL = None, NEXT_PUBLIC_CONVEX_URL = None\<rparr>"
  let ?req = "\<lparr>authorization = Some (utf16 ''Bearer guess''), host = Some (utf16 ''gistgeo.ai'')\<rparr>"
  have "utf16 ''Bearer guess'' \<noteq> utf16 ''Bearer '' @ utf16 ''s3cret''"
    by (simp add: utf16_def)
  then have h: "\<not> (\<exists>s. CRON_SECRET ?env = Some s
                \<and> authorization ?req = Some (utf16 ''Bearer '' @ s))"
    by simp
  from cron_GET_unauthorized [OF h] show ?thesis by simp
qed

text \<open>
  Claim C8. When the authorization succeeds, the handler answers 200 whatever the
  probes and the alert delivery do. The results are those of the probe of the homepage
  and then of the probe of \<open>/api/health\<close>, one entry each in this order, and
  \<open>alertSent\<close> holds exactly when some probe failed; the outcome of the POST to the
  webhook does not enter.
\<close>

theorem cron_GET_authorized:
  assumes "CRON_SECRET env = Some s" and "s \<noteq> []"
    and "authorization req = Some (utf16 ''Bearer '' @ s)"
  shows "http_status (fst (cron_GET env w req)) = 200
       \<and> (\<exists>sm. body (fst (cron_GET env w req)) = Summary sm
            \<and> results sm =
                [fst (executeHealthCheck (http_get w (request_baseUrl env req @ utf16 ''/''))
                        (request_baseUrl env req @ utf16 ''/'') 1 5000),
                 fst (executeHealthCheck
                        (http_get w (request_baseUrl env req @ utf16 ''/api/health''))
                        (request_baseUrl env req @ utf16 ''/api/health'') 1 5000)]
            \<and> map url (results sm) =
                [request_baseUrl env req @ utf16 ''/'',
                 request_baseUrl env req @ utf16 ''/api/health'']
            \<and> alertSent sm = (\<exists>r \<in> set (results sm). \<not> success r))"
proof -
  from assms have auth: "truthy (CRON_SECRET env)" "truthy (authorization req)"
    "authorization req = Some (utf16 ''Bearer '' @ or_default (CRON_SECRET env) [])"
    by (simp_all add: or_default_def utf16_def)
  have ne: "utf16 ''Bearer '' \<noteq> []" by (simp add: utf16_def)
  show ?thesis
    by (simp add: cron_GET_def Let_def case_prod_beta auth ne executeHealthCheck_url)
qed

theorem cron_GET_authorized_witness:
  "http_status (fst (cron_GET
       \<lparr>CRON_SECRET = Some (utf16 ''s3cret''), NODE_ENV = Some (utf16 ''production''),
        SLACK_WEBHOOK_URL = None, NEXT_PUBLIC_CONVEX_URL = None\<rparr>
       \<lparr>http_get = (\<lambda>u k. Responds 503 (utf16 ''Service Unavailable'') 30),
        http_post = Rejects NonError 10,
        now_locale = utf16 ''Nov 3, 2024, 4:00 AM'', now_iso = utf16 ''2024-11-03T12:00:00.000Z''\<rparr>
       \<lparr>authorization = Some (utf16 ''Bearer '' @ utf16 ''s3cret''),
        host = Some (utf16 ''gistgeo.ai'')\<rparr>)) = 200
   \<and> (\<exists>sm. body (fst (cron_GET
       \<lparr>CRON_SECRET = Some (utf16 ''s3cret''), NODE_ENV = Some (utf16 ''production''),
        SLACK_WEBHOOK_URL = None, NEXT_PUBLIC_CONVEX_URL = None\<rparr>
       \<lparr>http_get = (\<lambda>u k. Responds 503 (utf16 ''Service Unavailable'') 30),
        http_post = Rejects NonError 10,
        now_locale = utf16 ''Nov 3, 2024, 4:00 AM'', now_iso = utf16 ''2024-11-03T12:00:00.000Z''\<rparr>
       \<lparr>authorization = Some (utf16 ''Bearer '' @ utf16 ''s3cret''),
        host = Some (utf16 ''gistgeo.ai'')\<rparr>)) = Summary sm
      \<and> map url (results sm) = [utf16 ''https://gistgeo.ai/'', utf16 ''https://gistgeo.ai/api/health'']
      \<and> map success (results sm) = [False, False]
      \<and> alertSent sm = True)"
proof -
  let ?env = "\<lparr>CRON_SECRET = Some (utf16 ''s3cret''), NODE_ENV = Some (utf16 ''production''),
        SLACK_WEBHOOK_URL = None, NEXT_PUBLIC_CONVEX_URL = None\<rparr>"
  let ?w = "\<lparr>http_get = (\<lambda>u k. Responds 503 (utf16 ''Service Unavailable'') 30),
        http_post = Rejects NonError 10,
        now_locale = utf16 ''Nov 3, 2024, 4:00 AM'', now_iso = utf16 ''2024-11-03T12:00:00.000Z''\<rparr>"
  let ?req = "\<lparr>authorization = Some (utf16 ''Bearer '' @ utf16 ''s3cret''),
        host = Some (utf16 ''gistgeo.ai'')\<rparr>"
  have h1: "CRON_SECRET ?env = Some (utf16 ''s3cret'')" by simp
  have h2: "utf16 ''s3cret'' \<noteq> []" by (simp add: utf16_def)
  have h3: "authorization ?req = Some (utf16 ''Bearer '' @ utf16 ''s3cret'')" by simp
  have b: "request_baseUrl ?env ?req = utf16 ''https://gistgeo.ai''"
    by (simp add: request_baseUrl_def or_default_def utf16_def)
  have u: "utf16 ''https://gistgeo.ai'' @ utf16 ''/'' = utf16 ''https://gistgeo.ai/''"
    "utf16 ''https://gistgeo.ai'' @ utf16 ''/api/health'' = utf16 ''https://gistgeo.ai/api/health''"
    by (simp_all add: utf16_def)
  have f: "success (fst (executeHealthCheck (\<lambda>k. Responds 503 (utf16 ''Service Unavailable'') 30)
                      x 1 5000)) = False" for x
    by (simp add: executeHealthCheck_def attempt_loop.simps response_ok_def)
  from cron_GET_authorized [OF h1 h2 h3, of ?w] show ?thesis
    by (auto simp: b u f)
qed

section \<open>Properties of the health-status endpoint\<close>

lemma truthy_iff: "truthy a \<longleftrightarrow> a \<noteq> None \<and> a \<noteq> Some []"
  by (cases a) auto

lemma or_default_empty_iff: "or_default a [] = [] \<longleftrightarrow> \<not> truthy a"
  by (cases a) (auto simp: or_default_def)

text \<open>
  Claim C6, amended. The endpoint always answers. When nothing throws, the answer is
  "ok" with 200 exactly when the store URL is set and non-empty and the environment name
  is set and non-empty, and "error" with 503 otherwise; \<open>checks.convex\<close> and
  \<open>checks.environment\<close> report the two conditions, and the error string names each
  failed check, joined by a comma. When something throws inside the \<open>try\<close> block,
  the answer is "error" with 503, both checks false and the message of the exception.
\<close>

theorem health_GET_response:
  "(health_status (health_body (health_GET env stamp None)) = StatusOk
      \<longleftrightarrow> (NEXT_PUBLIC_CONVEX_URL env \<noteq> None \<and> NEXT_PUBLIC_CONVEX_URL env \<noteq> Some []) \<and> (NODE_ENV env \<noteq> None \<and> NODE_ENV env \<noteq> Some []))
   \<and> (health_http_status (health_GET env stamp None) = 200
      \<longleftrightarrow> (NEXT_PUBLIC_CONVEX_URL env \<noteq> None \<and> NEXT_PUBLIC_CONVEX_URL env \<noteq> Some []) \<and> (NODE_ENV env \<noteq> None \<and> NODE_ENV env \<noteq> Some []))
   \<and> (health_status (health_body (health_GET env stamp None)) = StatusError
      \<longleftrightarrow> \<not> ((NEXT_PUBLIC_CONVEX_URL env \<noteq> None \<and> NEXT_PUBLIC_CONVEX_URL env \<noteq> Some []) \<and> (NODE_ENV env \<noteq> None \<and> NODE_ENV env \<noteq> Some [])))
   \<and> (health_http_status (health_GET env stamp None) = 503
      \<longleftrightarrow> \<not> ((NEXT_PUBLIC_CONVEX_URL env \<noteq> None \<and> NEXT_PUBLIC_CONVEX_URL env \<noteq> Some []) \<and> (NODE_ENV env \<noteq> None \<and> NODE_ENV env \<noteq> Some [])))
   \<and> (convex (checks (health_body (health_GET env stamp None)))
      \<longleftrightarrow> (NEXT_PUBLIC_CONVEX_URL env \<noteq> None \<and> NEXT_PUBLIC_CONVEX_URL env \<noteq> Some []))
   \<and> (environment (checks (health_body (health_GET env stamp None)))
      \<longleftrightarrow> (NODE_ENV env \<noteq> None \<and> NODE_ENV env \<noteq> Some []))
   \<and> health_error (health_body (health_GET env stamp None))
       = (if (NEXT_PUBLIC_CONVEX_URL env \<noteq> None \<and> NEXT_PUBLIC_CONVEX_URL env \<noteq> Some []) then
            if (NODE_ENV env \<noteq> None \<and> NODE_ENV env \<noteq> Some []) then None
            else Some (utf16 ''Environment not configured'')
          else
            if (NODE_ENV env \<noteq> None \<and> NODE_ENV env \<noteq> Some [])
            then Some (utf16 ''Convex URL not configured'')
            else Some (utf16 ''Convex URL not configured'' @ utf16 '', ''
                       @ utf16 ''Environment not configured''))
   \<and> health_GET env stamp (Some err)
       = \<lparr>health_http_status = 503,
          health_body =
            \<lparr>health_status = StatusError, health_timestamp = stamp,
             checks = \<lparr>convex = False, environment = False\<rparr>,
             health_error = Some (case err of ErrorObj m \<Rightarrow> m
                                  | NonError \<Rightarrow> utf16 ''Unknown error occurred'')\<rparr>\<rparr>"
  by (simp add: health_GET_def Let_def or_default_empty_iff truthy_iff)

text \<open>
  Claim C6 as stated asks of the environment name only that it is set. With
  \<open>NODE_ENV\<close> set to the empty string and the store URL set and non-empty, the
  endpoint answers "error" with 503.
\<close>

theorem health_GET_empty_environment_counterexample:
  "NEXT_PUBLIC_CONVEX_URL
     \<lparr>CRON_SECRET = None, NODE_ENV = Some [], SLACK_WEBHOOK_URL = None,
      NEXT_PUBLIC_CONVEX_URL = Some (utf16 ''https://x.convex.cloud'')\<rparr>
     = Some (utf16 ''https://x.convex.cloud'')
   \<and> utf16 ''https://x.convex.cloud'' \<noteq> []
   \<and> NODE_ENV
     \<lparr>CRON_SECRET = None, NODE_ENV = Some [], SLACK_WEBHOOK_URL = None,
      NEXT_PUBLIC_CONVEX_URL = Some (utf16 ''https://x.convex.cloud'')\<rparr> \<noteq> None
   \<and> health_GET
     \<lparr>CRON_SECRET = None, NODE_ENV = Some [], SLACK_WEBHOOK_URL = None,
      NEXT_PUBLIC_CONVEX_URL = Some (utf16 ''https://x.convex.cloud'')\<rparr>
     (utf16 ''2024-11-03T12:00:00.000Z'') None
     = \<lparr>health_http_status = 503,
        health_body =
          \<lparr>health_status = StatusError,
           health_timestamp = utf16 ''2024-11-03T12:00:00.000Z'',
           checks = \<lparr>convex = True, environment = False\<rparr>,
           health_error = Some (utf16 ''Environment not configured'')\<rparr>\<rparr>"
  by (simp add: health_GET_def Let_def or_default_def utf16_def)

end
